theory Spec2Isabelle
  imports Main "HOL-Library.Word"
begin

section \<open>The sumex stream stage\<close>

text \<open>
  The package \<^verbatim>\<open>sumex\<close> builds pipeline stages: a stage owns an unbuffered intake
  channel, a pool of worker goroutines that run a user-supplied processor on every
  payload, and a list of subscriber stages that receive the processor's result.

  The embedding is a state-passing one. The \<^verbatim>\<open>stream\<close> struct is a record, every
  method takes the record and returns the updated one, a panic or a goroutine that can
  never proceed is a value of the type \<open>fault\<close>. Goroutines are sequenced: an operation
  of the model is one completed call of a method, a worker goroutine that gets to run
  after \<^verbatim>\<open>New\<close> has started it, or one unit of work completed by a worker.
\<close>

subsection \<open>Data model\<close>

text \<open>Go's \<^verbatim>\<open>int64\<close>, and Go's \<^verbatim>\<open>int\<close> on a 64-bit platform: addition wraps.\<close>

type_synonym int64 = "64 word"
type_synonym goint = "64 word"

text \<open>A value of Go's interface type \<^verbatim>\<open>error\<close>: \<open>None\<close> is \<^verbatim>\<open>nil\<close>, otherwise the message.\<close>

type_synonym error = "string option"

text \<open>
  The \<^verbatim>\<open>Log\<close> interface. \<open>eventlog\<close> is the package's own logger (the variable
  \<^verbatim>\<open>events\<close>), whose methods do nothing; \<open>userlog\<close> stands for a logger of the caller.
\<close>

datatype Log = eventlog | userlog nat

text \<open>
  One call of a method of the logger: \<^verbatim>\<open>Log(context, name, message, data...)\<close> or
  \<^verbatim>\<open>Error(context, name, err, message, data...)\<close>. The message is kept as the format
  string the source passes; the trailing data are left out.
\<close>

datatype log_event =
    LogCall string string string
  | ErrorCall string string error string

text \<open>
  The struct \<^verbatim>\<open>payload\<close>. A value of type \<^verbatim>\<open>interface{}\<close> is \<open>'v option\<close>, with
  \<open>None\<close> for \<^verbatim>\<open>nil\<close>.
\<close>

record ('c, 'v) payload =
  err :: error
  d :: "'v option"
  ctx :: 'c

text \<open>A channel is open or closed.\<close>

datatype chan = IsOpen | IsClosed

text \<open>What becomes of a call: it returns, it panics, or it can never proceed.\<close>

datatype fault = Panic string | Blocked

text \<open>
  A processor (the method \<^verbatim>\<open>Do\<close> of a \<^verbatim>\<open>Proc\<close>, or a \<^verbatim>\<open>ProcHandler\<close>) returns a value
  and an error, or panics. It is a Go closure, so it may change what it has captured:
  \<open>'x\<close> is the state it closes over, passed in and returned. A processor that never
  returns is not modelled.
\<close>

datatype 'v result = Returns "'v option" error | Panics string

type_synonym ('c, 'v, 'x) ProcHandler = "'c \<Rightarrow> error \<Rightarrow> 'v option \<Rightarrow> 'x \<Rightarrow> 'v result \<times> 'x"

text \<open>
  A call of a subscriber's \<^verbatim>\<open>Data\<close> or \<^verbatim>\<open>Error\<close> that a worker starts in a goroutine
  of its own.
\<close>

datatype ('c, 'v) call = CallData 'c "'v option" | CallError 'c error

text \<open>
  The struct \<^verbatim>\<open>stream\<close>. A subscriber is a reference \<open>'s\<close> to another stage. The
  field \<open>proc\<close> is an interface value, \<open>None\<close> when it is \<^verbatim>\<open>nil\<close>; \<open>wg\<close> is the counter
  of the wait group. The two locks are left out: calls are sequenced. Five fields are
  not fields of the struct, they hold what the struct's goroutines act on:
  \<^item> \<open>logged\<close>: the calls made to the logger, oldest first;
  \<^item> \<open>inflight\<close>: the payloads a worker has received from \<^verbatim>\<open>s.data\<close> and not yet
    handled, oldest first;
  \<^item> \<open>spawned\<close>: the calls of subscribers started by workers, in the order of the
    \<^verbatim>\<open>go\<close> statements;
  \<^item> \<open>unstarted\<close>: the number of worker goroutines that \<^verbatim>\<open>New\<close> has started with
    \<^verbatim>\<open>go\<close> and that have not run yet;
  \<^item> \<open>world\<close>: the state the processor closes over.
\<close>

record ('c, 'v, 's, 'x) stream =
  log :: Log
  uuid :: string
  closed :: int64
  processed :: int64
  pending :: int64
  shutdownAfterpending :: int64
  workersUp :: int64
  workers :: goint
  proc :: "('c, 'v, 'x) ProcHandler option"
  data :: chan
  nc :: chan
  wg :: int
  pubs :: "'s list"
  logged :: "log_event list"
  inflight :: "('c, 'v) payload list"
  spawned :: "('s \<times> ('c, 'v) call) list"
  unstarted :: nat
  world :: 'x

text \<open>The struct \<^verbatim>\<open>Stat\<close>.\<close>

record Stat =
  TotalWorkersRunning :: int64
  TotalWorkers :: int64
  Pending :: int64
  Completed :: int64
  Closed :: int64

subsection \<open>Logging\<close>

definition Log_Log ::
  "string \<Rightarrow> string \<Rightarrow> string \<Rightarrow> ('c, 'v, 's, 'x) stream \<Rightarrow> ('c, 'v, 's, 'x) stream" where
  "Log_Log context name message s = s\<lparr>logged := logged s @ [LogCall context name message]\<rparr>"

definition Log_Error ::
  "string \<Rightarrow> string \<Rightarrow> error \<Rightarrow> string \<Rightarrow> ('c, 'v, 's, 'x) stream \<Rightarrow> ('c, 'v, 's, 'x) stream" where
  "Log_Error context name e message s =
     s\<lparr>logged := logged s @ [ErrorCall context name e message]\<rparr>"

subsection \<open>The worker\<close>

text \<open>
  The function literal the worker passes to \<^verbatim>\<open>panics.Defer\<close> for one payload. The
  result is the panic that leaves it, if any, and the state it leaves behind. Calling
  \<^verbatim>\<open>Do\<close> on a nil interface value is a run-time panic. A panic of the processor
  leaves the function at the call of \<^verbatim>\<open>s.proc.Do\<close>, before the counter and the
  broadcast.
\<close>

definition broadcast ::
  "('c, 'v) call \<Rightarrow> ('c, 'v, 's, 'x) stream \<Rightarrow> ('c, 'v, 's, 'x) stream" where
  "broadcast c s = s\<lparr>spawned := spawned s @ map (\<lambda>sm. (sm, c)) (pubs s)\<rparr>"

definition unit_of_work ::
  "('c, 'v) payload \<Rightarrow> ('c, 'v, 's, 'x) stream \<Rightarrow> string option \<times> ('c, 'v, 's, 'x) stream" where
  "unit_of_work load s =
     (case proc s of
        None \<Rightarrow> (Some ''invalid memory address or nil pointer dereference'', s)
      | Some p \<Rightarrow>
          (case p (ctx load) (err load) (d load) (world s) of
             (Panics m, x) \<Rightarrow> (Some m, s\<lparr>world := x\<rparr>)
           | (Returns res e, x) \<Rightarrow>
               (let s1 = s\<lparr>world := x\<rparr>;
                    s2 = Log_Log ''sumex.Stream'' ''worker''
                           ''Info : Res : { Response: %+s, Error: %+s}'' s1;
                    s3 = s2\<lparr>processed := processed s2 + 1\<rparr>
                in if e \<noteq> None
                   then (None, broadcast (CallError (ctx load) e) s3)
                   else (None, broadcast (CallData (ctx load) res) s3))))"

text \<open>The second function literal: what the worker does with a recovered panic.\<close>

definition on_panic ::
  "string \<Rightarrow> ('c, 'v, 's, 'x) stream \<Rightarrow> ('c, 'v, 's, 'x) stream" where
  "on_panic trace s = Log_Error ''sumex.Stream'' ''worker'' (Some ''Panic'') ''Panic : %+s'' s"

text \<open>
  Modelled from the spec: \<^verbatim>\<open>panics.Defer\<close> belongs to the package
  \<^verbatim>\<open>github.com/influx6/faux/panics\<close>, which is not among the sources. The
  specification has a fault of the processor intercepted at the one place where the
  unit of work is called, and the loop going on: \<open>Defer\<close> runs the operation, and
  when a panic leaves it, recovers and hands the trace to the second function. No
  panic leaves \<open>Defer\<close>.
\<close>

definition Defer ::
  "('st \<Rightarrow> string option \<times> 'st) \<Rightarrow> (string \<Rightarrow> 'st \<Rightarrow> 'st) \<Rightarrow> 'st \<Rightarrow> string option \<times> 'st" where
  "Defer op logfn s =
     (case op s of
        (None, s') \<Rightarrow> (None, s')
      | (Some trace, s') \<Rightarrow> (None, logfn trace s'))"

text \<open>The body of the worker's loop for one payload.\<close>

definition handle ::
  "('c, 'v) payload \<Rightarrow> ('c, 'v, 's, 'x) stream \<Rightarrow> string option \<times> ('c, 'v, 's, 'x) stream" where
  "handle load s = Defer (unit_of_work load) on_panic s"

text \<open>
  The loop \<^verbatim>\<open>for load := range s.data\<close> of one worker, on the payloads it receives
  before the channel is closed. A panic that leaves the body ends the loop.
\<close>

fun range_data ::
  "('c, 'v) payload list \<Rightarrow> ('c, 'v, 's, 'x) stream \<Rightarrow> string option \<times> ('c, 'v, 's, 'x) stream" where
  "range_data [] s = (None, s)"
| "range_data (load # rest) s =
     (case handle load s of
        (Some trace, s') \<Rightarrow> (Some trace, s')
      | (None, s') \<Rightarrow> range_data rest s')"

text \<open>
  The worker before its loop (\<^verbatim>\<open>s.wg.Add(1)\<close> and the increment of
  \<^verbatim>\<open>workersUp\<close>) and after it (the log line, then the two deferred calls, last
  registered first). \<^verbatim>\<open>Done\<close> panics when the counter would become negative.
\<close>

definition worker_enter :: "('c, 'v, 's, 'x) stream \<Rightarrow> ('c, 'v, 's, 'x) stream" where
  "worker_enter s = (let s1 = s\<lparr>wg := wg s + 1\<rparr> in s1\<lparr>workersUp := workersUp s1 + 1\<rparr>)"

definition worker_exit :: "('c, 'v, 's, 'x) stream \<Rightarrow> fault + ('c, 'v, 's, 'x) stream" where
  "worker_exit s =
     (let s1 = Log_Log ''sumex.Stream'' ''worker'' ''Info : Goroutine : Shutdown'' s;
          s2 = s1\<lparr>workersUp := workersUp s1 - 1\<rparr>
      in if wg s2 - 1 < 0 then Inl (Panic ''sync: negative WaitGroup counter'')
         else Inr (s2\<lparr>wg := wg s2 - 1\<rparr>))"

text \<open>
  One of the goroutines that \<^verbatim>\<open>New\<close> has started gets to run: it is a worker that
  registers with the wait group, counts itself as running and arrives at its loop.
  With no such goroutine left nothing happens.
\<close>

definition worker_begin :: "('c, 'v, 's, 'x) stream \<Rightarrow> ('c, 'v, 's, 'x) stream" where
  "worker_begin s =
     (case unstarted s of
        0 \<Rightarrow> s
      | Suc n \<Rightarrow> worker_enter (s\<lparr>unstarted := n\<rparr>))"

text \<open>
  The method \<^verbatim>\<open>worker\<close> run alone: it receives the payloads \<open>loads\<close>, then the
  channel is closed. A panic that leaves the loop still runs the deferred calls and
  then ends the program.
\<close>

definition worker ::
  "('c, 'v) payload list \<Rightarrow> ('c, 'v, 's, 'x) stream \<Rightarrow> fault + ('c, 'v, 's, 'x) stream" where
  "worker loads s =
     (case range_data loads (worker_enter s) of
        (Some trace, s') \<Rightarrow> Inl (Panic trace)
      | (None, s') \<Rightarrow> worker_exit s')"

subsection \<open>Construction and statistics\<close>

text \<open>
  The statement \<^verbatim>\<open>go sm.worker()\<close> starts a goroutine and goes on: the worker has
  not run yet. \<open>spawn\<close> is the loop of \<^verbatim>\<open>New\<close> around it.
\<close>

definition go_worker :: "('c, 'v, 's, 'x) stream \<Rightarrow> ('c, 'v, 's, 'x) stream" where
  "go_worker s = s\<lparr>unstarted := Suc (unstarted s)\<rparr>"

fun spawn :: "nat \<Rightarrow> ('c, 'v, 's, 'x) stream \<Rightarrow> ('c, 'v, 's, 'x) stream" where
  "spawn 0 s = s"
| "spawn (Suc n) s = spawn n (go_worker s)"

text \<open>
  \<^verbatim>\<open>New\<close>. The identifier \<open>u\<close> stands for \<^verbatim>\<open>uuid.NewV4().String()\<close>, and \<open>x\<close> is the
  state the processor has captured. There is no test of \<open>p\<close>. When \<^verbatim>\<open>New\<close> returns
  no worker has registered with the wait group or counted itself as running: each does
  so itself, when it gets to run.
\<close>

definition New ::
  "Log option \<Rightarrow> goint \<Rightarrow> ('c, 'v, 'x) ProcHandler option \<Rightarrow> string \<Rightarrow> 'x \<Rightarrow> ('c, 'v, 's, 'x) stream" where
  "New l w p u x =
     (let w1 = (if w \<le>s 0 then 1 else w);
          l1 = (case l of None \<Rightarrow> eventlog | Some lg \<Rightarrow> lg);
          sm = \<lparr>log = l1, uuid = u, closed = 0, processed = 0, pending = 0,
                shutdownAfterpending = 0, workersUp = 0, workers = w1, proc = p,
                data = IsOpen, nc = IsOpen, wg = 0, pubs = [], logged = [], inflight = [],
                spawned = [], unstarted = 0, world = x\<rparr>
      in spawn (nat (sint w1)) sm)"

text \<open>
  \<^verbatim>\<open>Stats\<close>. The sum \<^verbatim>\<open>s.workers + 1\<close> is a sum of \<^verbatim>\<open>int\<close>, and its conversion to
  \<^verbatim>\<open>int64\<close> changes nothing at 64 bits.
\<close>

definition Stats :: "('c, 'v, 's, 'x) stream \<Rightarrow> Stat" where
  "Stats s =
     \<lparr>TotalWorkersRunning = workersUp s,
      TotalWorkers = workers s + 1,
      Pending = pending s,
      Completed = processed s,
      Closed = closed s\<rparr>"

definition CloseNotify :: "('c, 'v, 's, 'x) stream \<Rightarrow> chan" where
  "CloseNotify s = nc s"

definition UUID :: "('c, 'v, 's, 'x) stream \<Rightarrow> string" where
  "UUID s = uuid s"

text \<open>\<^verbatim>\<open>Stream\<close> appends the subscriber and returns it.\<close>

definition Stream :: "'s \<Rightarrow> ('c, 'v, 's, 'x) stream \<Rightarrow> 's \<times> ('c, 'v, 's, 'x) stream" where
  "Stream sm s = (sm, s\<lparr>pubs := pubs s @ [sm]\<rparr>)"

subsection \<open>Submitting work\<close>

text \<open>
  One worker completes the unit of work it holds (the oldest one). A panic that
  leaves the worker's loop ends the program.
\<close>

definition work :: "('c, 'v, 's, 'x) stream \<Rightarrow> fault + ('c, 'v, 's, 'x) stream" where
  "work s =
     (case inflight s of
        [] \<Rightarrow> Inr s
      | load # rest \<Rightarrow>
          (case handle load (s\<lparr>inflight := rest\<rparr>) of
             (Some trace, s') \<Rightarrow> Inl (Panic trace)
           | (None, s') \<Rightarrow> Inr s'))"

text \<open>
  A goroutine started by \<^verbatim>\<open>New\<close> gets to run, if there is one left. On an open
  channel the worker then waits in its loop; on a closed one the loop ends at once
  and the worker leaves.
\<close>

definition start :: "('c, 'v, 's, 'x) stream \<Rightarrow> fault + ('c, 'v, 's, 'x) stream" where
  "start s =
     (if unstarted s = 0 then Inr s
      else if data s = IsClosed then worker_exit (worker_begin s)
      else Inr (worker_begin s))"

text \<open>
  The send \<^verbatim>\<open>s.data <- load\<close> on the unbuffered channel. It panics on a closed
  channel. It completes when a worker receives the payload: while every running worker
  still holds a payload, the send waits for one of them to finish, and with no worker
  running it waits for ever.
\<close>

definition send ::
  "('c, 'v) payload \<Rightarrow> ('c, 'v, 's, 'x) stream \<Rightarrow> fault + ('c, 'v, 's, 'x) stream" where
  "send load s =
     (if data s = IsClosed then Inl (Panic ''send on closed channel'')
      else if workersUp s = 0 then Inl Blocked
      else if length (inflight s) < unat (workersUp s)
        then Inr (s\<lparr>inflight := inflight s @ [load]\<rparr>)
      else (case work s of
              Inl f \<Rightarrow> Inl f
            | Inr s1 \<Rightarrow> Inr (s1\<lparr>inflight := inflight s1 @ [load]\<rparr>)))"

definition Data ::
  "'c \<Rightarrow> 'v option \<Rightarrow> ('c, 'v, 's, 'x) stream \<Rightarrow> fault + ('c, 'v, 's, 'x) stream" where
  "Data c v s =
     (if 0 <s closed s then Inr s
      else
        (let s1 = Log_Log ''sumex.Stream'' ''Data'' ''Started : Data Recieved : %s'' s;
             s2 = s1\<lparr>pending := pending s1 + 1\<rparr>
         in case send \<lparr>err = None, d = v, ctx = c\<rparr> s2 of
              Inl f \<Rightarrow> Inl f
            | Inr s3 \<Rightarrow>
                Inr (Log_Log ''sumex.Stream'' ''Data'' ''Completed''
                       (s3\<lparr>pending := pending s3 - 1\<rparr>))))"

definition Error ::
  "'c \<Rightarrow> error \<Rightarrow> ('c, 'v, 's, 'x) stream \<Rightarrow> fault + ('c, 'v, 's, 'x) stream" where
  "Error c e s =
     (if closed s \<noteq> 0 then Inr s
      else
        (let s1 = Log_Error ''sumex.Stream'' ''Error'' e ''Started : Error Recieved : %s'' s;
             s2 = s1\<lparr>pending := pending s1 + 1\<rparr>
         in case send \<lparr>err = e, d = None, ctx = c\<rparr> s2 of
              Inl f \<Rightarrow> Inl f
            | Inr s3 \<Rightarrow>
                Inr (Log_Log ''sumex.Stream'' ''Error'' ''Completed''
                       (s3\<lparr>pending := pending s3 - 1\<rparr>))))"

subsection \<open>Shutdown\<close>

text \<open>The running workers leave their loops one after the other.\<close>

fun exits :: "nat \<Rightarrow> ('c, 'v, 's, 'x) stream \<Rightarrow> fault + ('c, 'v, 's, 'x) stream" where
  "exits 0 s = Inr s"
| "exits (Suc n) s = (case worker_exit s of Inl f \<Rightarrow> Inl f | Inr s' \<Rightarrow> exits n s')"

text \<open>
  \<^verbatim>\<open>s.wg.Wait()\<close>: the caller waits until the counter of the wait group is zero.
  With the channel closed the workers handle the payloads they hold and leave; with
  the channel open no worker leaves. A worker that has not run yet is not in the
  count, and stays as it is while the caller waits. (In the code such a worker may
  also register just as \<^verbatim>\<open>Wait\<close> wakes up, and \<^verbatim>\<open>Wait\<close> then panics: a call
  that does not return. A worker that registers earlier during the wait leaves the
  stage as one that has run before the call does.)
\<close>

definition wait :: "('c, 'v, 's, 'x) stream \<Rightarrow> fault + ('c, 'v, 's, 'x) stream" where
  "wait s =
     (if wg s = 0 then Inr s
      else if data s = IsOpen then Inl Blocked
      else (case range_data (inflight s) (s\<lparr>inflight := []\<rparr>) of
              (Some trace, s1) \<Rightarrow> Inl (Panic trace)
            | (None, s1) \<Rightarrow>
                (case exits (unat (workersUp s1)) s1 of
                   Inl f \<Rightarrow> Inl f
                 | Inr s2 \<Rightarrow> if wg s2 = 0 then Inr s2 else Inl Blocked)))"

text \<open>Closing a channel a second time is a panic.\<close>

definition close_data :: "('c, 'v, 's, 'x) stream \<Rightarrow> fault + ('c, 'v, 's, 'x) stream" where
  "close_data s =
     (if data s = IsClosed then Inl (Panic ''close of closed channel'')
      else Inr (s\<lparr>data := IsClosed\<rparr>))"

definition close_nc :: "('c, 'v, 's, 'x) stream \<Rightarrow> fault + ('c, 'v, 's, 'x) stream" where
  "close_nc s =
     (if nc s = IsClosed then Inl (Panic ''close of closed channel'')
      else Inr (s\<lparr>nc := IsClosed\<rparr>))"

text \<open>
  \<^verbatim>\<open>Shutdown\<close>. The deferred \<^verbatim>\<open>close(s.nc)\<close> runs when the body returns; a body that
  panics or waits for ever gives no state back.
\<close>

definition Shutdown :: "('c, 'v, 's, 'x) stream \<Rightarrow> fault + ('c, 'v, 's, 'x) stream" where
  "Shutdown s =
     (let s0 = Log_Log ''Sumex.Stream'' ''Shutdown'' ''Started : Shutdown Requested'' s
      in if 0 <s closed s0
         then Inr (Log_Log ''Sumex.Stream'' ''Stats''
                     ''Completed : Shutdown Request : Previously Done'' s0)
         else
           (let s1 = s0\<lparr>closed := 1\<rparr>;
                s2 = s1\<lparr>pending := pending s1 + 1\<rparr>
            in case close_data s2 of
                 Inl f \<Rightarrow> Inl f
               | Inr s3 \<Rightarrow>
                   (case wait (s3\<lparr>pending := pending s3 - 1\<rparr>) of
                      Inl f \<Rightarrow> Inl f
                    | Inr s4 \<Rightarrow>
                        close_nc (Log_Log ''Sumex.Stream'' ''Shutdown''
                                    ''Completed : Shutdown Requested'' s4))))"

subsection \<open>A caller\<close>

text \<open>
  A run of a stage: completed calls of its methods by a caller, \<open>OpStart\<close> for a
  worker goroutine that gets to run, and \<open>OpWork\<close> for a worker that completes the
  unit of work it holds. The run stops at the first fault.
\<close>

datatype ('c, 'v, 's) op =
    OpData 'c "'v option"
  | OpError 'c error
  | OpStream 's
  | OpShutdown
  | OpStart
  | OpWork

fun apply_op ::
  "('c, 'v, 's) op \<Rightarrow> ('c, 'v, 's, 'x) stream \<Rightarrow> fault + ('c, 'v, 's, 'x) stream" where
  "apply_op (OpData c v) s = Data c v s"
| "apply_op (OpError c e) s = Error c e s"
| "apply_op (OpStream sm) s = Inr (snd (Stream sm s))"
| "apply_op OpShutdown s = Shutdown s"
| "apply_op OpStart s = start s"
| "apply_op OpWork s = work s"

fun run ::
  "('c, 'v, 's) op list \<Rightarrow> ('c, 'v, 's, 'x) stream \<Rightarrow> fault + ('c, 'v, 's, 'x) stream" where
  "run [] s = Inr s"
| "run (a # as) s = (case apply_op a s of Inl f \<Rightarrow> Inl f | Inr s' \<Rightarrow> run as s')"

subsection \<open>Combinators\<close>

text \<open>The method \<^verbatim>\<open>Do\<close> of \<^verbatim>\<open>doworker\<close> calls the handler it wraps.\<close>

definition doworker_Do :: "('c, 'v, 'x) ProcHandler \<Rightarrow> ('c, 'v, 'x) ProcHandler" where
  "doworker_Do p = (\<lambda>c e v. p c e v)"

text \<open>
  \<^verbatim>\<open>Do\<close>. The stage \<open>sm\<close> may be \<^verbatim>\<open>nil\<close> (\<open>None\<close>); \<open>r\<close> is the reference under
  which the new stage is registered with \<open>sm\<close>. The result is the new stage and \<open>sm\<close>
  after the registration.
\<close>

definition Do ::
  "('c, 'v, 's, 'y) stream option \<Rightarrow> 's \<Rightarrow> goint \<Rightarrow> ('c, 'v, 'x) ProcHandler option \<Rightarrow>
   string \<Rightarrow> 'x \<Rightarrow> fault + (('c, 'v, 's, 'x) stream \<times> ('c, 'v, 's, 'y) stream option)" where
  "Do sm r w h u x =
     (case h of
        None \<Rightarrow> Inl (Panic ''nil ProcHandler'')
      | Some f \<Rightarrow>
          (let lg = (case sm of None \<Rightarrow> Some eventlog | Some _ \<Rightarrow> None);
               ms = New lg w (Some (doworker_Do f)) u x
           in Inr (ms, map_option (\<lambda>s. snd (Stream r s)) sm)))"

text \<open>\<^verbatim>\<open>Identity\<close>: the logger passed in is not used.\<close>

definition Identity ::
  "goint \<Rightarrow> Log option \<Rightarrow> 's \<Rightarrow> string \<Rightarrow> 'x \<Rightarrow>
   fault + (('c, 'v, 's, 'x) stream \<times> ('c, 'v, 's, 'x) stream option)" where
  "Identity w l r u x = Do None r w (Some (\<lambda>c e v y. (Returns v e, y))) u x"

text \<open>
  The channel \<^verbatim>\<open>mc\<close> of a bridge: the values sent on it so far, which a consumer
  receives in this order, and whether it is closed. A send on a closed channel panics.
\<close>

record 'a bridge =
  sent :: "'a list"
  mc :: chan

definition mc_send :: "'a \<Rightarrow> 'a bridge \<Rightarrow> string + 'a bridge" where
  "mc_send a b =
     (if mc b = IsClosed then Inl ''send on closed channel''
      else Inr (b\<lparr>sent := sent b @ [a]\<rparr>))"

text \<open>The handlers of \<^verbatim>\<open>Receive\<close> and of \<^verbatim>\<open>ReceiveError\<close>.\<close>

definition Receive_handler :: "('c, 'v, 'v option bridge) ProcHandler" where
  "Receive_handler c e v b =
     (case mc_send v b of
        Inl m \<Rightarrow> (Panics m, b)
      | Inr b' \<Rightarrow> (Returns None None, b'))"

definition ReceiveError_handler :: "('c, 'v, error bridge) ProcHandler" where
  "ReceiveError_handler c e v b =
     (if e \<noteq> None
      then (case mc_send e b of
              Inl m \<Rightarrow> (Panics m, b)
            | Inr b' \<Rightarrow> (Returns None None, b'))
      else (Returns None None, b))"

text \<open>
  \<^verbatim>\<open>Receive\<close> and \<^verbatim>\<open>ReceiveError\<close> make the channel and the bridge stage with one
  worker. The goroutine they start is \<open>bridge_close\<close>.
\<close>

definition Receive ::
  "('c, 'v, 's, 'y) stream option \<Rightarrow> 's \<Rightarrow> string \<Rightarrow>
   fault + (('c, 'v, 's, 'v option bridge) stream \<times> ('c, 'v, 's, 'y) stream option)" where
  "Receive sm r u = Do sm r 1 (Some Receive_handler) u \<lparr>sent = [], mc = IsOpen\<rparr>"

definition ReceiveError ::
  "('c, 'v, 's, 'y) stream option \<Rightarrow> 's \<Rightarrow> string \<Rightarrow>
   fault + (('c, 'v, 's, error bridge) stream \<times> ('c, 'v, 's, 'y) stream option)" where
  "ReceiveError sm r u = Do sm r 1 (Some ReceiveError_handler) u \<lparr>sent = [], mc = IsOpen\<rparr>"

text \<open>
  The goroutine of a bridge: it waits for the close notification of \<open>sm\<close>, shuts the
  bridge stage down and closes \<^verbatim>\<open>mc\<close>.
\<close>

definition bridge_close ::
  "('c, 'v, 's, 'y) stream option \<Rightarrow> ('c, 'v, 's, 'a bridge) stream \<Rightarrow>
   fault + ('c, 'v, 's, 'a bridge) stream" where
  "bridge_close sm ms =
     (case sm of
        None \<Rightarrow> Inl (Panic ''invalid memory address or nil pointer dereference'')
      | Some s \<Rightarrow>
          if CloseNotify s = IsOpen then Inl Blocked
          else (case Shutdown ms of
                  Inl f \<Rightarrow> Inl f
                | Inr ms' \<Rightarrow>
                    if mc (world ms') = IsClosed then Inl (Panic ''close of closed channel'')
                    else Inr (ms'\<lparr>world := (world ms')\<lparr>mc := IsClosed\<rparr>\<rparr>)))"

subsection \<open>Example processors\<close>

text \<open>
  Processors for concrete runs: one that panics on every payload, one that returns
  an error on every payload, and one that panics on the value \<open>0\<close> and passes every
  other payload on.
\<close>

definition always_panics :: "(unit, nat, unit) ProcHandler" where
  "always_panics c e v x = (Panics ''boom'', x)"

definition always_fails :: "(unit, nat, unit) ProcHandler" where
  "always_fails c e v x = (Returns None (Some ''failed''), x)"


definition unit_load :: "nat \<Rightarrow> (unit, nat) payload" where
  "unit_load n = \<lparr>err = None, d = Some n, ctx = ()\<rparr>"

subsection \<open>Relations between states\<close>

text \<open>
  \<open>evolved p x y\<close>: the state \<open>y\<close> of the processor comes from \<open>x\<close> by calls of
  the processor \<open>p\<close>.
\<close>

inductive evolved :: "('c, 'v, 'x) ProcHandler option \<Rightarrow> 'x \<Rightarrow> 'x \<Rightarrow> bool" for p where
  evolved_refl: "evolved p x x"
| evolved_step: "evolved p x y \<Longrightarrow> p = Some h \<Longrightarrow> evolved p x (snd (h c e v y))"

text \<open>
  \<open>frame s s'\<close>: the two states differ at most in the counter of processed units,
  the log, the calls started for subscribers and the state of the processor, which
  only the processor has changed.
\<close>

definition frame :: "('c, 'v, 's, 'x) stream \<Rightarrow> ('c, 'v, 's, 'x) stream \<Rightarrow> bool" where
  "frame s s' \<longleftrightarrow>
     closed s' = closed s \<and> pending s' = pending s \<and> workersUp s' = workersUp s \<and>
     workers s' = workers s \<and> proc s' = proc s \<and> data s' = data s \<and> nc s' = nc s \<and>
     wg s' = wg s \<and> pubs s' = pubs s \<and> inflight s' = inflight s \<and> log s' = log s \<and>
     uuid s' = uuid s \<and> shutdownAfterpending s' = shutdownAfterpending s \<and>
     unstarted s' = unstarted s \<and> evolved (proc s) (world s) (world s')"

text \<open>
  \<open>keeps s s'\<close>: what no worker and no submission changes. The two states may also
  differ in the workers that run, the wait group and the payloads held.
\<close>

definition keeps :: "('c, 'v, 's, 'x) stream \<Rightarrow> ('c, 'v, 's, 'x) stream \<Rightarrow> bool" where
  "keeps s s' \<longleftrightarrow>
     closed s' = closed s \<and> pending s' = pending s \<and> workers s' = workers s \<and>
     proc s' = proc s \<and> data s' = data s \<and> nc s' = nc s \<and> pubs s' = pubs s \<and>
     log s' = log s \<and> uuid s' = uuid s \<and> evolved (proc s) (world s) (world s')"

text \<open>\<open>carries s s'\<close>: what no call of a run changes.\<close>

definition carries :: "('c, 'v, 's, 'x) stream \<Rightarrow> ('c, 'v, 's, 'x) stream \<Rightarrow> bool" where
  "carries s s' \<longleftrightarrow>
     pending s' = pending s \<and> workers s' = workers s \<and> proc s' = proc s \<and>
     evolved (proc s) (world s) (world s')"

section \<open>Lemmas about the model\<close>

subsection \<open>What a unit of work leaves alone\<close>

lemma evolved_one: "p c e v x = (r, y) \<Longrightarrow> evolved (Some p) x y"
  using evolved_step [OF evolved_refl, of "Some p" p x c e v] by simp

lemma evolved_trans: "evolved p y z \<Longrightarrow> evolved p x y \<Longrightarrow> evolved p x z"
  by (induction rule: evolved.induct) (auto intro: evolved.intros)

lemma frame_refl: "frame s s"
  by (simp add: frame_def evolved_refl)

lemma frame_trans: "frame s s1 \<Longrightarrow> frame s1 s2 \<Longrightarrow> frame s s2"
  by (auto simp: frame_def intro: evolved_trans [of "proc s" "world s1" "world s2" "world s"])

lemma frame_Log_Error: "frame s (Log_Error a b e c s)"
  by (simp add: frame_def Log_Error_def evolved_refl)

lemma unit_of_work_frame: "frame s (snd (unit_of_work load s))"
  by (auto simp: unit_of_work_def frame_def Log_Log_def broadcast_def Let_def evolved_refl
      split: option.split prod.split result.split intro: evolved_one)

text \<open>No panic leaves the body of the loop, so the loop handles every payload.\<close>

lemma handle_None: "fst (handle load s) = None"
  by (simp add: handle_def Defer_def split: option.split prod.split)

lemma handle_frame: "frame s (snd (handle load s))"
proof -
  have "frame s (snd (unit_of_work load s))" by (rule unit_of_work_frame)
  then show ?thesis
    by (auto simp: handle_def Defer_def on_panic_def split: option.split prod.split
        intro: frame_trans frame_Log_Error)
qed

lemma handle_eq: "handle load s = (None, snd (handle load s))"
  using handle_None [of load s] by (cases "handle load s") simp

lemma range_data_step: "range_data (load # rest) s = range_data rest (snd (handle load s))"
  using handle_None [of load s] by (cases "handle load s") simp

lemma range_data_None: "fst (range_data loads s) = None"
  by (induction loads arbitrary: s) (simp_all add: range_data_step del: range_data.simps(2))

lemma range_data_frame: "frame s (snd (range_data loads s))"
proof (induction loads arbitrary: s)
  case Nil
  show ?case by (simp add: frame_refl)
next
  case (Cons load rest)
  have "frame s (snd (handle load s))" by (rule handle_frame)
  moreover have "frame (snd (handle load s)) (snd (range_data rest (snd (handle load s))))"
    by (rule Cons.IH)
  ultimately show ?case
    by (simp add: range_data_step del: range_data.simps(2)) (rule frame_trans)
qed

text \<open>The three ways a unit of work ends.\<close>

lemma handle_Returns:
  assumes "proc s = Some p" and "p (ctx load) (err load) (d load) (world s) = (Returns res e, x)"
  shows "handle load s =
    (None, broadcast (if e \<noteq> None then CallError (ctx load) e else CallData (ctx load) res)
       ((Log_Log ''sumex.Stream'' ''worker'' ''Info : Res : { Response: %+s, Error: %+s}''
          (s\<lparr>world := x\<rparr>))\<lparr>processed := processed s + 1\<rparr>))"
  using assms by (simp add: handle_def Defer_def unit_of_work_def Let_def Log_Log_def)

lemma handle_Panics:
  assumes "proc s = Some p" and "p (ctx load) (err load) (d load) (world s) = (Panics m, x)"
  shows "handle load s =
    (None, Log_Error ''sumex.Stream'' ''worker'' (Some ''Panic'') ''Panic : %+s'' (s\<lparr>world := x\<rparr>))"
  using assms by (simp add: handle_def Defer_def unit_of_work_def on_panic_def)

lemma handle_nil:
  assumes "proc s = None"
  shows "handle load s =
    (None, Log_Error ''sumex.Stream'' ''worker'' (Some ''Panic'') ''Panic : %+s'' s)"
  using assms by (simp add: handle_def Defer_def unit_of_work_def on_panic_def)

subsection \<open>What the workers and the submissions leave alone\<close>

lemma keeps_refl: "keeps s s"
  by (simp add: keeps_def evolved_refl)

lemma keeps_trans: "keeps s s1 \<Longrightarrow> keeps s1 s2 \<Longrightarrow> keeps s s2"
  by (auto simp: keeps_def intro: evolved_trans [of "proc s" "world s1" "world s2" "world s"])

lemma frame_keeps: "frame s s' \<Longrightarrow> keeps s s'"
  by (simp add: frame_def keeps_def)

lemma carries_refl: "carries s s"
  by (simp add: carries_def evolved_refl)

lemma carries_trans: "carries s s1 \<Longrightarrow> carries s1 s2 \<Longrightarrow> carries s s2"
  by (auto simp: carries_def intro: evolved_trans [of "proc s" "world s1" "world s2" "world s"])

lemma keeps_carries: "keeps s s' \<Longrightarrow> carries s s'"
  by (simp add: keeps_def carries_def)

lemma range_data_ok: "\<exists>s'. range_data loads s = (None, s') \<and> frame s s'"
  using range_data_None [of loads s] range_data_frame [of s loads]
  by (cases "range_data loads s") simp

lemma worker_begin_keeps: "keeps s (worker_begin s)"
  by (simp add: worker_begin_def worker_enter_def keeps_def evolved_refl split: nat.split)

lemma worker_exit_keeps: "worker_exit s = Inr s' \<Longrightarrow> keeps s s'"
  by (auto simp: worker_exit_def Let_def Log_Log_def keeps_def evolved_refl split: if_splits)

lemma exits_keeps: "exits n s = Inr s' \<Longrightarrow> keeps s s'"
proof (induction n arbitrary: s)
  case 0
  then show ?case by (simp add: keeps_refl)
next
  case (Suc n)
  then obtain s1 where a: "worker_exit s = Inr s1" and b: "exits n s1 = Inr s'"
    by (auto split: sum.splits)
  from a have "keeps s s1" by (rule worker_exit_keeps)
  moreover from b have "keeps s1 s'" by (rule Suc.IH)
  ultimately show ?case by (rule keeps_trans)
qed

lemma work_ok: "\<exists>s'. work s = Inr s' \<and> frame (s\<lparr>inflight := tl (inflight s)\<rparr>) s'"
proof (cases "inflight s")
  case Nil
  then show ?thesis by (simp add: work_def frame_def evolved_refl)
next
  case (Cons load rest)
  have "work s = Inr (snd (handle load (s\<lparr>inflight := rest\<rparr>)))"
    using Cons by (simp add: work_def, subst handle_eq, simp)
  moreover have "frame (s\<lparr>inflight := rest\<rparr>) (snd (handle load (s\<lparr>inflight := rest\<rparr>)))"
    by (rule handle_frame)
  ultimately show ?thesis using Cons by simp
qed

lemma work_keeps: "work s = Inr s' \<Longrightarrow> keeps s s'"
proof -
  assume a: "work s = Inr s'"
  obtain s1 where "work s = Inr s1" and "frame (s\<lparr>inflight := tl (inflight s)\<rparr>) s1"
    using work_ok by blast
  with a have "frame (s\<lparr>inflight := tl (inflight s)\<rparr>) s'" by simp
  then show ?thesis by (simp add: frame_def keeps_def)
qed

lemma send_keeps: "send load s = Inr s' \<Longrightarrow> keeps s s'"
proof -
  assume a: "send load s = Inr s'"
  show ?thesis
  proof (cases "length (inflight s) < unat (workersUp s)")
    case True
    with a have "s' = s\<lparr>inflight := inflight s @ [load]\<rparr>"
      by (simp add: send_def split: if_splits)
    then show ?thesis by (simp add: keeps_def evolved_refl)
  next
    case False
    with a obtain s1 where w: "work s = Inr s1" and e: "s' = s1\<lparr>inflight := inflight s1 @ [load]\<rparr>"
      by (auto simp: send_def split: if_splits sum.splits)
    from w have "keeps s s1" by (rule work_keeps)
    then show ?thesis using e by (simp add: keeps_def)
  qed
qed

lemma start_keeps: "start s = Inr s' \<Longrightarrow> keeps s s'"
proof -
  assume a: "start s = Inr s'"
  have b: "keeps s (worker_begin s)" by (rule worker_begin_keeps)
  show ?thesis
  proof (cases "unstarted s = 0")
    case True
    with a show ?thesis by (simp add: start_def keeps_refl)
  next
    case False
    show ?thesis
    proof (cases "data s = IsClosed")
      case True
      with a False have "worker_exit (worker_begin s) = Inr s'" by (simp add: start_def)
      then have "keeps (worker_begin s) s'" by (rule worker_exit_keeps)
      with b show ?thesis by (rule keeps_trans)
    next
      case c: False
      with a False have "s' = worker_begin s" by (simp add: start_def)
      with b show ?thesis by simp
    qed
  qed
qed

text \<open>The counter of processed units after one unit of work.\<close>

lemma handle_processed:
  assumes "proc s = Some p"
    and "p (ctx load) (err load) (d load) (world s) = (r, x)"
  shows "Completed (Stats (snd (handle load s))) =
     (case r of Returns res e \<Rightarrow> Completed (Stats s) + 1 | Panics m \<Rightarrow> Completed (Stats s))"
proof (cases r)
  case (Returns res e)
  with assms show ?thesis
    by (simp add: handle_Returns [of s p load res e x] Stats_def broadcast_def Log_Log_def)
next
  case (Panics m)
  with assms show ?thesis
    by (simp add: handle_Panics [of s p load m x] Stats_def Log_Error_def)
qed

subsection \<open>Submissions\<close>

lemma Data_closed: "0 <s closed s \<Longrightarrow> Data c v s = Inr s"
  by (simp add: Data_def)

lemma Error_closed: "closed s \<noteq> 0 \<Longrightarrow> Error c e s = Inr s"
  by (simp add: Error_def)

lemma Data_keeps: "Data c v s = Inr s' \<Longrightarrow> keeps s s'"
proof -
  assume a: "Data c v s = Inr s'"
  show ?thesis
  proof (cases "0 <s closed s")
    case True
    with a show ?thesis by (simp add: Data_closed keeps_refl)
  next
    case False
    let ?s2 = "(Log_Log ''sumex.Stream'' ''Data'' ''Started : Data Recieved : %s'' s)
                 \<lparr>pending := pending s + 1\<rparr>"
    from a False obtain s3 where s: "send \<lparr>err = None, d = v, ctx = c\<rparr> ?s2 = Inr s3"
      and e: "s' = Log_Log ''sumex.Stream'' ''Data'' ''Completed'' (s3\<lparr>pending := pending s3 - 1\<rparr>)"
      by (auto simp: Data_def Let_def Log_Log_def split: sum.splits)
    from s have "keeps ?s2 s3" by (rule send_keeps)
    then show ?thesis using e by (simp add: keeps_def Log_Log_def)
  qed
qed

lemma Error_keeps: "Error c e s = Inr s' \<Longrightarrow> keeps s s'"
proof -
  assume a: "Error c e s = Inr s'"
  show ?thesis
  proof (cases "closed s \<noteq> 0")
    case True
    with a show ?thesis by (simp add: Error_closed keeps_refl)
  next
    case False
    let ?s2 = "(Log_Error ''sumex.Stream'' ''Error'' e ''Started : Error Recieved : %s'' s)
                 \<lparr>pending := pending s + 1\<rparr>"
    from a False obtain s3 where s: "send \<lparr>err = e, d = None, ctx = c\<rparr> ?s2 = Inr s3"
      and e: "s' = Log_Log ''sumex.Stream'' ''Error'' ''Completed'' (s3\<lparr>pending := pending s3 - 1\<rparr>)"
      by (auto simp: Error_def Let_def Log_Error_def split: sum.splits)
    from s have "keeps ?s2 s3" by (rule send_keeps)
    then show ?thesis using e by (simp add: keeps_def Log_Log_def Log_Error_def)
  qed
qed

subsection \<open>Shutdown\<close>

lemma wait_keeps: "wait s = Inr s' \<Longrightarrow> keeps s s'"
proof -
  assume a: "wait s = Inr s'"
  show ?thesis
  proof (cases "wg s = 0")
    case True
    with a show ?thesis by (simp add: wait_def keeps_refl)
  next
    case False
    obtain s1 where r: "range_data (inflight s) (s\<lparr>inflight := []\<rparr>) = (None, s1)"
      and f: "frame (s\<lparr>inflight := []\<rparr>) s1"
      using range_data_ok by blast
    from a False r have "exits (unat (workersUp s1)) s1 = Inr s'"
      by (simp add: wait_def split: if_splits sum.splits)
    then have "keeps s1 s'" by (rule exits_keeps)
    moreover from f have "keeps s s1" by (simp add: frame_def keeps_def)
    ultimately show ?thesis using keeps_trans by blast
  qed
qed

lemma Shutdown_closed:
  "0 <s closed s \<Longrightarrow>
   Shutdown s = Inr (s\<lparr>logged := logged s @
     [LogCall ''Sumex.Stream'' ''Shutdown'' ''Started : Shutdown Requested'',
      LogCall ''Sumex.Stream'' ''Stats'' ''Completed : Shutdown Request : Previously Done'']\<rparr>)"
  by (simp add: Shutdown_def Log_Log_def)

lemma Shutdown_first:
  assumes "\<not> 0 <s closed s" and "Shutdown s = Inr s1"
  shows "closed s1 = 1 \<and> data s = IsOpen \<and> data s1 = IsClosed \<and> nc s = IsOpen \<and>
    nc s1 = IsClosed \<and> carries s s1"
proof -
  let ?s2 = "(Log_Log ''Sumex.Stream'' ''Shutdown'' ''Started : Shutdown Requested'' s)
               \<lparr>closed := 1, pending := pending s + 1\<rparr>"
  from assms obtain s3 s4 where c: "close_data ?s2 = Inr s3"
    and w: "wait (s3\<lparr>pending := pending s3 - 1\<rparr>) = Inr s4"
    and n: "close_nc (Log_Log ''Sumex.Stream'' ''Shutdown'' ''Completed : Shutdown Requested'' s4)
              = Inr s1"
    by (auto simp: Shutdown_def Let_def Log_Log_def split: sum.splits)
  from c have d: "data s = IsOpen" and s3: "s3 = ?s2\<lparr>data := IsClosed\<rparr>"
    by (auto simp: close_data_def Log_Log_def split: if_splits intro: chan.exhaust)
  from w have k: "keeps (s3\<lparr>pending := pending s3 - 1\<rparr>) s4" by (rule wait_keeps)
  from n have o: "nc s4 = IsOpen"
    and s1: "s1 = (Log_Log ''Sumex.Stream'' ''Shutdown'' ''Completed : Shutdown Requested'' s4)
                    \<lparr>nc := IsClosed\<rparr>"
    by (auto simp: close_nc_def Log_Log_def split: if_splits intro: chan.exhaust)
  from k s3 have f: "closed s4 = 1" "pending s4 = pending s" "data s4 = IsClosed" "nc s4 = nc s"
    "proc s4 = proc s" "workers s4 = workers s" "evolved (proc s) (world s) (world s4)"
    by (simp_all add: keeps_def Log_Log_def)
  show ?thesis using d o f by (simp add: s1 Log_Log_def carries_def)
qed

lemma Shutdown_sets_closed: "Shutdown s = Inr s1 \<Longrightarrow> 0 <s closed s1"
proof (cases "0 <s closed s")
  case True
  assume "Shutdown s = Inr s1"
  with True show ?thesis by (auto simp: Shutdown_closed)
next
  case False
  assume "Shutdown s = Inr s1"
  with False have "closed s1 = 1" using Shutdown_first by blast
  then show ?thesis by (simp add: word_sless_alt)
qed

lemma Shutdown_carries: "Shutdown s = Inr s1 \<Longrightarrow> carries s s1"
proof (cases "0 <s closed s")
  case True
  assume "Shutdown s = Inr s1"
  with True show ?thesis by (auto simp: Shutdown_closed carries_def evolved_refl)
next
  case False
  assume "Shutdown s = Inr s1"
  with False show ?thesis using Shutdown_first by blast
qed

subsection \<open>Runs of a caller\<close>

lemma apply_op_carries: "apply_op a s = Inr s' \<Longrightarrow> carries s s'"
proof (cases a)
  case (OpData c v)
  assume "apply_op a s = Inr s'"
  with OpData show ?thesis by (simp add: Data_keeps keeps_carries)
next
  case (OpError c e)
  assume "apply_op a s = Inr s'"
  with OpError show ?thesis by (simp add: Error_keeps keeps_carries)
next
  case (OpStream sm)
  assume "apply_op a s = Inr s'"
  with OpStream show ?thesis by (auto simp: Stream_def carries_def evolved_refl)
next
  case OpShutdown
  assume "apply_op a s = Inr s'"
  with OpShutdown show ?thesis by (simp add: Shutdown_carries)
next
  case OpStart
  assume "apply_op a s = Inr s'"
  with OpStart show ?thesis by (simp add: start_keeps keeps_carries)
next
  case OpWork
  assume "apply_op a s = Inr s'"
  with OpWork show ?thesis by (simp add: work_keeps keeps_carries)
qed

lemma run_carries: "run ops s = Inr s' \<Longrightarrow> carries s s'"
proof (induction ops arbitrary: s)
  case Nil
  then show ?case by (simp add: carries_refl)
next
  case (Cons a ops)
  then obtain s1 where a: "apply_op a s = Inr s1" and r: "run ops s1 = Inr s'"
    by (auto split: sum.splits)
  from a have "carries s s1" by (rule apply_op_carries)
  moreover from r have "carries s1 s'" by (rule Cons.IH)
  ultimately show ?case by (rule carries_trans)
qed

subsection \<open>Construction\<close>

lemma spawn_eq: "spawn n s = s\<lparr>unstarted := unstarted s + n\<rparr>"
  by (induction n arbitrary: s) (simp_all add: go_worker_def)

lemma New_eq:
  "New l w p u x =
     \<lparr>log = (case l of None \<Rightarrow> eventlog | Some lg \<Rightarrow> lg), uuid = u, closed = 0,
      processed = 0, pending = 0, shutdownAfterpending = 0, workersUp = 0,
      workers = (if w \<le>s 0 then 1 else w), proc = p, data = IsOpen, nc = IsOpen, wg = 0,
      pubs = [], logged = [], inflight = [], spawned = [],
      unstarted = nat (sint (if w \<le>s 0 then 1 else w)), world = x\<rparr>"
  by (simp add: New_def Let_def spawn_eq)

lemma New_one:
  "worker_begin (New None 1 p u x) =
     \<lparr>log = eventlog, uuid = u, closed = 0, processed = 0, pending = 0,
      shutdownAfterpending = 0, workersUp = 1, workers = 1, proc = p,
      data = IsOpen, nc = IsOpen, wg = 1, pubs = [], logged = [], inflight = [],
      spawned = [], unstarted = 0, world = x\<rparr>"
  by (simp add: New_eq worker_begin_def worker_enter_def)

subsection \<open>Machine integers\<close>

lemma sint_succ: "sint (N::64 word) < 2 ^ 63 - 1 \<Longrightarrow> sint (N + 1) = sint N + 1"
proof -
  assume a: "sint N < 2 ^ 63 - 1"
  have "- (2 ^ 63) \<le> sint N" using sint_greater_eq [of N] by simp
  with a have "signed_take_bit 63 (sint N + 1) = sint N + 1"
    by (simp add: signed_take_bit_int_eq_self)
  then show ?thesis by (simp add: sint_word_ariths)
qed

subsection \<open>The bridge for errors\<close>

lemma ReceiveError_evolved:
  "evolved p b b' \<Longrightarrow> p = Some (doworker_Do ReceiveError_handler) \<Longrightarrow>
   None \<notin> set (sent b) \<Longrightarrow> None \<notin> set (sent b')"
proof (induction rule: evolved.induct)
  case (evolved_refl b)
  then show ?case by simp
next
  case (evolved_step b y h c e v)
  then have "None \<notin> set (sent y)" and "h = doworker_Do ReceiveError_handler" by simp_all
  then show ?case
    by (auto simp: doworker_Do_def ReceiveError_handler_def mc_send_def)
qed

subsection \<open>Evaluating concrete runs\<close>

text \<open>The equations that unfold a run of a concrete stage.\<close>

lemmas evals = New_eq worker_begin_def worker_enter_def start_def Data_def Error_def send_def
  work_def handle_def Defer_def unit_of_work_def on_panic_def broadcast_def Shutdown_def
  wait_def close_data_def close_nc_def worker_exit_def Log_Log_def Log_Error_def Stream_def
  Stats_def Let_def word_sless_alt word_sle_eq

lemma exits_2:
  "exits 2 s = (case worker_exit s of Inl f \<Rightarrow> Inl f | Inr s' \<Rightarrow> exits (Suc 0) s')"
  by (simp add: numeral_2_eq_2)

section \<open>Properties of the worker\<close>

text \<open>
  Claim C1, at a stage with one worker, one subscriber and a processor that panics:
  the worker recovers from the panic and calls the logger's \<^verbatim>\<open>Error\<close> with the
  error \<^verbatim>\<open>Panic\<close>, and that is all. No call of the subscriber is started (\<open>spawned\<close>
  stays empty), although the package comment has panics sent out as errors.
\<close>

theorem panic_only_logged:
  "handle (unit_load 42) (snd (Stream (7::nat) (worker_begin (New None 1 (Some always_panics) ''u'' ())))) =
     (None,
      \<lparr>log = eventlog, uuid = ''u'', closed = 0, processed = 0, pending = 0,
       shutdownAfterpending = 0, workersUp = 1, workers = 1, proc = Some always_panics,
       data = IsOpen, nc = IsOpen, wg = 1, pubs = [7],
       logged = [ErrorCall ''sumex.Stream'' ''worker'' (Some ''Panic'') ''Panic : %+s''],
       inflight = [], spawned = [], unstarted = 0, world = ()\<rparr>)"
  by (simp add: handle_Panics [of _ always_panics _ "''boom''" "()"] New_one Stream_def
      unit_load_def always_panics_def Log_Error_def)



text \<open>
  Claim C4: when the processor returns, the worker starts one call for every
  subscriber and nothing else: \<^verbatim>\<open>Data\<close> with the result when the error is nil,
  \<^verbatim>\<open>Error\<close> with the error (and without the result) when it is not. So no subscriber
  gets both for one payload.
\<close>

theorem worker_broadcast_exclusive:
  assumes "proc s = Some p"
    and "p (ctx load) (err load) (d load) (world s) = (Returns res e, x)"
  shows "fst (handle load s) = None \<and>
    spawned (snd (handle load s)) = spawned s @
      (if e = None then map (\<lambda>sm. (sm, CallData (ctx load) res)) (pubs s)
       else map (\<lambda>sm. (sm, CallError (ctx load) e)) (pubs s))"
  using handle_Returns [OF assms]
  by (simp add: broadcast_def Log_Log_def)

theorem worker_broadcast_exclusive_witness:
  "proc (snd (Stream (7::nat) (worker_begin (New None 1 (Some always_fails) ''u'' ())))) = Some always_fails \<and>
   always_fails () None (Some 42) () = (Returns None (Some ''failed''), ()) \<and>
   fst (handle (unit_load 42) (snd (Stream (7::nat) (worker_begin (New None 1 (Some always_fails) ''u'' ()))))) = None \<and>
   spawned (snd (handle (unit_load 42) (snd (Stream (7::nat) (worker_begin (New None 1 (Some always_fails) ''u'' ()))))))
     = [(7, CallError () (Some ''failed''))]"
  using worker_broadcast_exclusive [of "snd (Stream (7::nat) (worker_begin (New None 1 (Some always_fails) ''u'' ())))"
      always_fails "unit_load 42" None "Some ''failed''" "()"]
  by (simp add: New_one Stream_def unit_load_def always_fails_def)

text \<open>
  Claim C8, at a stage with one worker: after the worker has handled a payload on
  which the processor panics, the counter of processed units is still 0. On the
  sibling path, a processor that returns an error, it is 1. The panic leaves the
  unit of work before the counter, as it does before the broadcast of claim C1.
\<close>

theorem panicked_unit_not_counted:
  "Completed (Stats (snd (handle (unit_load 42)
      (worker_begin (New None 1 (Some always_panics) ''u'' () :: (unit, nat, nat, unit) stream))))) = 0 \<and>
   Completed (Stats (snd (handle (unit_load 42)
      (worker_begin (New None 1 (Some always_fails) ''u'' () :: (unit, nat, nat, unit) stream))))) = 1"
  by (simp add: handle_Panics [of _ always_panics _ "''boom''" "()"]
      handle_Returns [of _ always_fails _ None "Some ''failed''" "()"] New_one unit_load_def
      always_panics_def always_fails_def Stats_def Log_Error_def Log_Log_def broadcast_def)

section \<open>Properties of the stage\<close>

text \<open>
  Claim C3, at \<^verbatim>\<open>New(nil, 1, nil)\<close>: \<^verbatim>\<open>New\<close> does not look at its processor, so it
  builds a stage from a nil \<^verbatim>\<open>Proc\<close> and its worker runs. The fault comes later,
  with the first payload: the worker's call of \<^verbatim>\<open>Do\<close> panics, and the panic is
  recovered and logged. \<^verbatim>\<open>Do\<close>, given a nil handler, panics at once.
\<close>

theorem New_takes_nil_Proc:
  "handle (unit_load 42)
     (worker_begin (New None 1 None ''u'' () :: (unit, nat, nat, unit) stream)) =
     (None,
      \<lparr>log = eventlog, uuid = ''u'', closed = 0, processed = 0, pending = 0,
       shutdownAfterpending = 0, workersUp = 1, workers = 1, proc = None,
       data = IsOpen, nc = IsOpen, wg = 1, pubs = [],
       logged = [ErrorCall ''sumex.Stream'' ''worker'' (Some ''Panic'') ''Panic : %+s''],
       inflight = [], spawned = [], unstarted = 0, world = ()\<rparr>) \<and>
   Do (None :: (unit, nat, nat, unit) stream option) (7::nat) 1
      (None :: (unit, nat, unit) ProcHandler option) ''u'' () = Inl (Panic ''nil ProcHandler'')"
  by (simp add: handle_nil New_one Log_Error_def Do_def)

text \<open>
  Claim C5: when a call of \<^verbatim>\<open>Shutdown\<close> has returned, on any state of a stage, a
  second call returns as well: it closes no channel and panics nowhere, and it
  changes nothing in the stage but the log, to which it adds its two lines. When the
  first call found the stage not yet closed, both channels were open before it and
  are closed after it: the close notification is closed once, by the first call.
\<close>

theorem Shutdown_idempotent:
  assumes "Shutdown s = Inr s1"
  shows "Shutdown s1 = Inr (s1\<lparr>logged := logged s1 @
       [LogCall ''Sumex.Stream'' ''Shutdown'' ''Started : Shutdown Requested'',
        LogCall ''Sumex.Stream'' ''Stats'' ''Completed : Shutdown Request : Previously Done'']\<rparr>) \<and>
    (\<not> 0 <s closed s \<longrightarrow>
       CloseNotify s = IsOpen \<and> CloseNotify s1 = IsClosed \<and> data s = IsOpen \<and> data s1 = IsClosed)"
proof -
  have "0 <s closed s1" using assms by (rule Shutdown_sets_closed)
  then have "Shutdown s1 = Inr (s1\<lparr>logged := logged s1 @
       [LogCall ''Sumex.Stream'' ''Shutdown'' ''Started : Shutdown Requested'',
        LogCall ''Sumex.Stream'' ''Stats'' ''Completed : Shutdown Request : Previously Done'']\<rparr>)"
    by (rule Shutdown_closed)
  moreover have "\<not> 0 <s closed s \<longrightarrow>
       CloseNotify s = IsOpen \<and> CloseNotify s1 = IsClosed \<and> data s = IsOpen \<and> data s1 = IsClosed"
    using Shutdown_first [OF _ assms] by (simp add: CloseNotify_def)
  ultimately show ?thesis by simp
qed

theorem Shutdown_idempotent_witness:
  "\<exists>s1. Shutdown (worker_begin (New None 1 (Some always_fails) ''u'' ()
            :: (unit, nat, nat, unit) stream)) = Inr s1 \<and>
     \<not> 0 <s closed (worker_begin (New None 1 (Some always_fails) ''u'' ()
            :: (unit, nat, nat, unit) stream)) \<and>
     Shutdown s1 = Inr (s1\<lparr>logged := logged s1 @
       [LogCall ''Sumex.Stream'' ''Shutdown'' ''Started : Shutdown Requested'',
        LogCall ''Sumex.Stream'' ''Stats'' ''Completed : Shutdown Request : Previously Done'']\<rparr>) \<and>
     CloseNotify (worker_begin (New None 1 (Some always_fails) ''u'' ()
            :: (unit, nat, nat, unit) stream)) = IsOpen \<and>
     CloseNotify s1 = IsClosed \<and> data s1 = IsClosed"
proof -
  let ?s = "worker_begin (New None 1 (Some always_fails) ''u'' () :: (unit, nat, nat, unit) stream)"
  have "\<exists>s1. Shutdown ?s = Inr s1" by (simp add: evals)
  then obtain s1 where sh: "Shutdown ?s = Inr s1" by blast
  have c: "\<not> 0 <s closed ?s" by (simp add: evals)
  from Shutdown_idempotent [OF sh] c sh show ?thesis by blast
qed

text \<open>
  Claim C6: on a stage on which a call of \<^verbatim>\<open>Shutdown\<close> has returned, \<^verbatim>\<open>Data\<close> and
  \<^verbatim>\<open>Error\<close> return without a fault and leave the stage exactly as it is: nothing is
  handed to a worker and \<^verbatim>\<open>Pending\<close> is not touched. \<^verbatim>\<open>Shutdown\<close> has left
  \<^verbatim>\<open>Pending\<close> as it found it, and that is 0 on a stage brought there from \<^verbatim>\<open>New\<close>
  by a run of completed calls.
\<close>

theorem closed_stage_drops:
  assumes "Shutdown s = Inr s1"
  shows "Data c v s1 = Inr s1 \<and> Error c e s1 = Inr s1 \<and>
    Pending (Stats s1) = Pending (Stats s) \<and>
    (run ops (New l w p u x) = Inr s \<longrightarrow> Pending (Stats s1) = 0)"
proof -
  have a: "0 <s closed s1" using assms by (rule Shutdown_sets_closed)
  then have b: "closed s1 \<noteq> 0" by (auto simp: word_sless_alt)
  have k: "pending s1 = pending s" using Shutdown_carries [OF assms] by (simp add: carries_def)
  have "run ops (New l w p u x) = Inr s \<longrightarrow> pending s = 0"
  proof
    assume "run ops (New l w p u x) = Inr s"
    then have "carries (New l w p u x) s" by (rule run_carries)
    then show "pending s = 0" by (simp add: carries_def New_eq)
  qed
  with a b k show ?thesis by (simp add: Data_closed Error_closed Stats_def)
qed

theorem closed_stage_drops_witness:
  "\<exists>s s1. run [OpStart, OpData () (Some 1), OpError () (Some ''e'')]
        (New None 1 (Some always_fails) ''u'' () :: (unit, nat, nat, unit) stream) = Inr s \<and>
     Shutdown s = Inr s1 \<and>
     Data () (Some 5) s1 = Inr s1 \<and> Error () (Some ''late'') s1 = Inr s1 \<and>
     Pending (Stats s1) = 0"
proof -
  have "\<exists>s s1. run [OpStart, OpData () (Some 1), OpError () (Some ''e'')]
        (New None 1 (Some always_fails) ''u'' () :: (unit, nat, nat, unit) stream) = Inr s \<and>
     Shutdown s = Inr s1"
    by (simp add: evals always_fails_def)
  then obtain s s1 where r: "run [OpStart, OpData () (Some 1), OpError () (Some ''e'')]
        (New None 1 (Some always_fails) ''u'' () :: (unit, nat, nat, unit) stream) = Inr s"
    and sh: "Shutdown s = Inr s1" by blast
  from closed_stage_drops [OF sh, of "()" "Some 5" "Some ''late''"
      "[OpStart, OpData () (Some 1), OpError () (Some ''e'')]" None 1 "Some always_fails" "''u''" "()"]
    r sh show ?thesis by blast
qed

text \<open>
  Claim C7: when a run of completed calls on a stage made by \<^verbatim>\<open>New\<close> has returned,
  \<^verbatim>\<open>Pending\<close> is 0, and when the \<^verbatim>\<open>Shutdown\<close> that follows has returned it is 0
  again: each call has taken back the one it added.
\<close>

theorem pending_zero_after_Shutdown:
  assumes "run ops (New l w p u x) = Inr s" and "Shutdown s = Inr s1"
  shows "Pending (Stats s) = 0 \<and> Pending (Stats s1) = 0"
proof -
  have "carries (New l w p u x) s" using assms(1) by (rule run_carries)
  then have "pending s = 0" by (simp add: carries_def New_eq)
  moreover have "pending s1 = pending s"
    using Shutdown_carries [OF assms(2)] by (simp add: carries_def)
  ultimately show ?thesis by (simp add: Stats_def)
qed

theorem pending_zero_after_Shutdown_witness:
  "\<exists>s s1. run [OpStart, OpStart, OpData () (Some 1), OpError () (Some ''e''), OpData () (Some 2)]
        (New None 2 (Some always_fails) ''u'' () :: (unit, nat, nat, unit) stream) = Inr s \<and>
     Shutdown s = Inr s1 \<and> Pending (Stats s) = 0 \<and> Pending (Stats s1) = 0"
proof -
  have "\<exists>s s1. run [OpStart, OpStart, OpData () (Some 1), OpError () (Some ''e''), OpData () (Some 2)]
        (New None 2 (Some always_fails) ''u'' () :: (unit, nat, nat, unit) stream) = Inr s \<and>
     Shutdown s = Inr s1"
    by (simp add: evals always_fails_def exits_2)
  then obtain s s1 where
    r: "run [OpStart, OpStart, OpData () (Some 1), OpError () (Some ''e''), OpData () (Some 2)]
        (New None 2 (Some always_fails) ''u'' () :: (unit, nat, nat, unit) stream) = Inr s"
    and sh: "Shutdown s = Inr s1" by blast
  from pending_zero_after_Shutdown [OF r sh] r sh show ?thesis by blast
qed

text \<open>
  Claim C9: a stage made by \<^verbatim>\<open>New\<close> with \<open>N \<ge> 1\<close> workers reports
  \<^verbatim>\<open>TotalWorkers\<close> as \<open>N + 1\<close>, the sum being Go's. Read as integers the two agree
  for every \<open>N\<close> below the largest \<^verbatim>\<open>int\<close>, where the sum would wrap around (a
  stage with that many workers has as many goroutines).
\<close>

theorem TotalWorkers_New:
  assumes "0 <s N"
  shows "TotalWorkers (Stats (New l N p u x :: ('c, 'v, 's, 'x) stream)) = N + 1 \<and>
    (sint N < 2 ^ 63 - 1 \<longrightarrow>
       sint (TotalWorkers (Stats (New l N p u x :: ('c, 'v, 's, 'x) stream))) = sint N + 1)"
proof -
  have "\<not> N \<le>s 0" using assms by (simp add: word_sless_alt word_sle_eq)
  then have "TotalWorkers (Stats (New l N p u x :: ('c, 'v, 's, 'x) stream)) = N + 1"
    by (simp add: New_eq Stats_def)
  then show ?thesis using sint_succ [of N] by simp
qed

theorem TotalWorkers_New_witness:
  "0 <s (4::64 word) \<and>
   TotalWorkers (Stats (New None 4 (Some always_fails) ''u'' () :: (unit, nat, nat, unit) stream)) = 5 \<and>
   sint (4::64 word) < 2 ^ 63 - 1 \<and>
   sint (TotalWorkers (Stats (New None 4 (Some always_fails) ''u'' () :: (unit, nat, nat, unit) stream))) = 5"
  using TotalWorkers_New [of 4 None "Some always_fails" "''u''" "()"]
  by (simp add: word_sless_alt)

text \<open>
  Claim C10: \<^verbatim>\<open>ReceiveError\<close> always returns a bridge stage, and after every run of
  the bridge stage that returns, no value the bridge has sent on its channel is a nil
  error. On a payload with a nil error the handler sends nothing and returns nil and
  nil.
\<close>

theorem ReceiveError_carries_errors:
  "\<exists>ms sm'. ReceiveError sm r u = Inr (ms, sm') \<and>
     (\<forall>ops ms'. run ops ms = Inr ms' \<longrightarrow> None \<notin> set (sent (world ms'))) \<and>
     ReceiveError_handler c None v b = (Returns None None, b)"
proof -
  let ?lg = "case sm of None \<Rightarrow> Some eventlog | Some _ \<Rightarrow> None"
  let ?ms = "New ?lg 1 (Some (doworker_Do ReceiveError_handler)) u \<lparr>sent = [], mc = IsOpen\<rparr>
    :: ('a, 'b, 'c, error bridge) stream"
  have r: "ReceiveError sm r u = Inr (?ms, map_option (\<lambda>s. snd (Stream r s)) sm)"
    by (simp add: ReceiveError_def Do_def)
  have n: "proc ?ms = Some (doworker_Do ReceiveError_handler)" "world ?ms = \<lparr>sent = [], mc = IsOpen\<rparr>"
    by (simp_all add: New_eq)
  have "\<forall>ops ms'. run ops ?ms = Inr ms' \<longrightarrow> None \<notin> set (sent (world ms'))"
  proof (intro allI impI)
    fix ops ms'
    assume "run ops ?ms = Inr ms'"
    then have "carries ?ms ms'" by (rule run_carries)
    then have e: "evolved (proc ?ms) (world ?ms) (world ms')" by (simp add: carries_def)
    show "None \<notin> set (sent (world ms'))"
      using ReceiveError_evolved [OF e n(1)] n(2) by simp
  qed
  moreover have "ReceiveError_handler c None v b = (Returns None None, b)"
    by (simp add: ReceiveError_handler_def)
  ultimately show ?thesis using r by blast
qed

theorem ReceiveError_carries_errors_witness:
  "\<exists>ms sm' ms'.
     ReceiveError (Some (New None 1 (Some always_fails) ''up'' () :: (unit, nat, nat, unit) stream))
       (7::nat) ''u'' = Inr (ms, sm') \<and>
     run [OpStart, OpError () (Some ''e1''), OpData () (Some 3), OpWork, OpWork] ms = Inr ms' \<and>
     sent (world ms') = [Some ''e1''] \<and> None \<notin> set (sent (world ms')) \<and>
     ReceiveError_handler () None (Some (3::nat)) \<lparr>sent = [], mc = IsOpen\<rparr>
       = (Returns None None, \<lparr>sent = [], mc = IsOpen\<rparr>)"
proof -
  let ?up = "New None 1 (Some always_fails) ''up'' () :: (unit, nat, nat, unit) stream"
  let ?ops = "[OpStart, OpError () (Some ''e1''), OpData () (Some 3), OpWork, OpWork]
    :: (unit, nat, nat) op list"
  obtain ms sm' where a: "ReceiveError (Some ?up) (7::nat) ''u'' = Inr (ms, sm')"
    and b: "\<forall>ops ms'. run ops ms = Inr ms' \<longrightarrow> None \<notin> set (sent (world ms'))"
    and c: "ReceiveError_handler () None (Some (3::nat)) \<lparr>sent = [], mc = IsOpen\<rparr>
       = (Returns None None, \<lparr>sent = [], mc = IsOpen\<rparr>)"
    using ReceiveError_carries_errors [of "Some ?up" "7::nat" "''u''" "()" "Some (3::nat)"
        "\<lparr>sent = [], mc = IsOpen\<rparr>"] by blast
  have m: "ms = New None 1 (Some (doworker_Do ReceiveError_handler)) ''u'' \<lparr>sent = [], mc = IsOpen\<rparr>"
    using a by (simp add: ReceiveError_def Do_def)
  have "\<exists>ms'. run ?ops ms = Inr ms' \<and> sent (world ms') = [Some ''e1'']"
    unfolding m by (simp add: evals doworker_Do_def ReceiveError_handler_def mc_send_def)
  then obtain ms' where r: "run ?ops ms = Inr ms'" and e: "sent (world ms') = [Some ''e1'']"
    by blast
  from b r have "None \<notin> set (sent (world ms'))" by blast
  with a r e c show ?thesis by blast
qed

end
